theory Spec2Isabelle
  imports Main "HOL-Library.Word"
begin

unbundle bit_operations_syntax

section \<open>Data model\<close>

text \<open>
  Go byte slices (\<open>[]byte\<close>: passwords, salts, keys) are lists of 8-bit words.
  Go strings (the encoded record and its segments) are lists of 8-bit characters.
\<close>

type_synonym byte = "8 word"
type_synonym bytes = "8 word list"

text \<open>
  The error values a call can return.  The first three are the package's own
  variables; the others are the values the library calls of the package hand
  back and the package returns as they are: \<open>io.EOF\<close>, \<open>io.ErrUnexpectedEOF\<close>,
  an error of \<open>fmt\<close>'s scanner with its message, a range error of \<open>strconv\<close>
  with the function and the token, \<open>base64.CorruptInputError\<close> with its offset,
  and any other error of the random source.
\<close>

datatype error =
    ErrInvalidHash
  | ErrIncompatibleVersion
  | ErrPasswordNotMatch
  | EOF
  | ErrUnexpectedEOF
  | ScanError string
  | NumError string string
  | CorruptInputError nat
  | ReaderError string

text \<open>The struct \<open>Params\<close>.\<close>

record Params =
  Memory :: "32 word"
  Iterations :: "32 word"
  Parallelism :: "8 word"
  SaltLength :: "32 word"
  KeyLength :: "32 word"

section \<open>Library functions the package calls\<close>

subsection \<open>strings.Split with a one-byte separator\<close>

text \<open>
  \<open>strings.Split s sep\<close> cuts \<open>s\<close> at every occurrence of the separator and
  returns all the pieces, the empty ones included: the piece before the first
  separator, then the pieces of what follows it.  A string without the separator
  (also the empty string) gives the one-element list of itself.
\<close>

function Split :: "string \<Rightarrow> char \<Rightarrow> string list" where
  "Split s sep =
     (case dropWhile (\<lambda>c. c \<noteq> sep) s of
        [] \<Rightarrow> [s]
      | c # rest \<Rightarrow> takeWhile (\<lambda>c. c \<noteq> sep) s # Split rest sep)"
  by pat_completeness auto
termination
proof (relation "measure (\<lambda>(s, sep). length s)")
  show "wf (measure (\<lambda>(s, sep). length s))" by simp
next
  fix s :: string and sep c :: char and rest :: string
  assume d: "dropWhile (\<lambda>c. c \<noteq> sep) s = c # rest"
  have "length (dropWhile (\<lambda>c. c \<noteq> sep) s) \<le> length s"
    by (rule length_dropWhile_le)
  with d show "((rest, sep), (s, sep)) \<in> measure (\<lambda>(s, sep). length s)"
    by simp
qed

declare Split.simps [simp del]

subsection \<open>encoding/base64: RawStdEncoding\<close>

definition encodeStd :: string where
  "encodeStd = ''ABCDEFGHIJKLMNOPQRSTUVWXYZabcdefghijklmnopqrstuvwxyz0123456789+/''"

text \<open>
  The decode map of an encoding: the index of a byte in the alphabet, and
  \<open>0xff\<close> for a byte that is not in it.
\<close>

fun lookupFrom :: "char \<Rightarrow> string \<Rightarrow> nat \<Rightarrow> byte" where
  "lookupFrom c [] i = 0xff"
| "lookupFrom c (x # xs) i = (if c = x then of_nat i else lookupFrom c xs (Suc i))"

definition decodeMap :: "char \<Rightarrow> byte" where
  "decodeMap c = lookupFrom c encodeStd 0"

text \<open>The character of a 6-bit value: \<open>enc.encode[v & 0x3F]\<close>.\<close>

definition encChar :: "64 word \<Rightarrow> char" where
  "encChar v = encodeStd ! unat (v AND 0x3F)"

text \<open>
  \<open>EncodeToString\<close> without padding: three bytes give four characters, a
  remainder of two bytes gives three, a remainder of one byte gives two.
\<close>

fun EncodeToString :: "bytes \<Rightarrow> string" where
  "EncodeToString (a # b # c # rest) =
     (let val = push_bit 16 (ucast a) OR push_bit 8 (ucast b) OR ucast c :: 64 word in
      [encChar (drop_bit 18 val), encChar (drop_bit 12 val),
       encChar (drop_bit 6 val), encChar val] @ EncodeToString rest)"
| "EncodeToString [a, b] =
     (let val = push_bit 16 (ucast a) OR push_bit 8 (ucast b) :: 64 word in
      [encChar (drop_bit 18 val), encChar (drop_bit 12 val), encChar (drop_bit 6 val)])"
| "EncodeToString [a] =
     (let val = push_bit 16 (ucast a) :: 64 word in
      [encChar (drop_bit 18 val), encChar (drop_bit 12 val)])"
| "EncodeToString [] = []"

text \<open>
  The bytes of one quantum of \<open>dlen\<close> decoded characters (2, 3 or 4 of them,
  the missing ones zero): \<open>dlen - 1\<close> bytes of the 24-bit value.  The encoding
  is not strict, so the unused low bits of a short quantum are dropped.
\<close>

definition quantumBytes :: "byte list \<Rightarrow> bytes" where
  "quantumBytes dbuf =
     (let d = dbuf @ replicate (4 - length dbuf) 0;
          val = push_bit 18 (ucast (d ! 0)) OR push_bit 12 (ucast (d ! 1))
                OR push_bit 6 (ucast (d ! 2)) OR ucast (d ! 3) :: 64 word
      in take (length dbuf - 1)
           [ucast (drop_bit 16 val), ucast (drop_bit 8 val), ucast val])"

text \<open>
  \<open>Decode\<close> as one pass over the input: \<open>si\<close> is the index of the next input
  byte and \<open>dbuf\<close> holds the values of the current quantum read so far.
  A byte of the alphabet is added to the quantum, and the fourth one completes
  it; carriage return and line feed are skipped; any other byte (also \<open>=\<close>,
  since the encoding has no padding) is a \<open>CorruptInputError\<close> at its index.
  At the end of the input an empty quantum is fine, a quantum of one value
  is a \<open>CorruptInputError\<close> at \<open>si - 1\<close>, and a quantum of two or three values
  gives one or two bytes.
\<close>

fun decodeFrom :: "string \<Rightarrow> nat \<Rightarrow> byte list \<Rightarrow> error + bytes" where
  "decodeFrom [] si dbuf =
     (if length dbuf = 0 then Inr []
      else if length dbuf = 1 then Inl (CorruptInputError (si - 1))
      else Inr (quantumBytes dbuf))"
| "decodeFrom (c # cs) si dbuf =
     (let out = decodeMap c in
      if out \<noteq> 0xff then
        (if length dbuf = 3 then
           (case decodeFrom cs (Suc si) [] of
              Inl e \<Rightarrow> Inl e
            | Inr bs \<Rightarrow> Inr (quantumBytes (dbuf @ [out]) @ bs))
         else decodeFrom cs (Suc si) (dbuf @ [out]))
      else if c = CHR 0x0A \<or> c = CHR 0x0D then decodeFrom cs (Suc si) dbuf
      else Inl (CorruptInputError si))"

definition DecodeString :: "string \<Rightarrow> error + bytes" where
  "DecodeString s = decodeFrom s 0 []"

subsection \<open>fmt.Sscanf and fmt.Sprintf with the verb \<open>%d\<close>\<close>

text \<open>
  Errors are threaded through the steps of a scan: the first one ends it.
\<close>

definition bindE :: "error + 'a \<Rightarrow> ('a \<Rightarrow> error + 'b) \<Rightarrow> error + 'b" where
  "bindE r f = (case r of Inl e \<Rightarrow> Inl e | Inr x \<Rightarrow> f x)"

text \<open>
  The scanner reads runes.  \<open>spaceWidth s\<close> is the number of bytes of the first
  rune of \<open>s\<close> when it is one of the scanner's space characters, and 0 when it is
  not: the bytes 0x09 to 0x0D and 0x20, and the UTF-8 encodings of U+0085, U+00A0,
  U+1680, U+2000 to U+200A, U+2028, U+2029, U+202F, U+205F and U+3000.
\<close>

definition isSpaceByte :: "char \<Rightarrow> bool" where
  "isSpaceByte c = ((9 \<le> (of_char c :: nat) \<and> (of_char c :: nat) \<le> 13) \<or> c = CHR 0x20)"

definition spaceWidth :: "string \<Rightarrow> nat" where
  "spaceWidth s =
     (if s \<noteq> [] \<and> isSpaceByte (hd s) then 1
      else if 2 \<le> length s \<and> hd s = CHR 0xC2 \<and> (s ! 1 = CHR 0x85 \<or> s ! 1 = CHR 0xA0) then 2
      else if 3 \<le> length s \<and> take 3 s = [CHR 0xE1, CHR 0x9A, CHR 0x80] then 3
      else if 3 \<le> length s \<and> take 2 s = [CHR 0xE2, CHR 0x80] \<and>
              ((0x80 \<le> (of_char (s ! 2) :: nat) \<and> (of_char (s ! 2) :: nat) \<le> 0x8A) \<or>
               s ! 2 = CHR 0xA8 \<or> s ! 2 = CHR 0xA9 \<or> s ! 2 = CHR 0xAF) then 3
      else if 3 \<le> length s \<and> take 3 s = [CHR 0xE2, CHR 0x81, CHR 0x9F] then 3
      else if 3 \<le> length s \<and> take 3 s = [CHR 0xE3, CHR 0x80, CHR 0x80] then 3
      else 0)"

text \<open>
  \<open>SkipSpace\<close> of a scan started by \<open>Sscanf\<close> (a newline is not a space there):
  it skips space runes and fails on a line feed.
\<close>

function SkipSpace :: "string \<Rightarrow> error + string" where
  "SkipSpace s =
     (if s = [] then Inr []
      else if hd s = CHR 0x0A then Inl (ScanError ''unexpected newline'')
      else if spaceWidth s = 0 then Inr s
      else SkipSpace (drop (spaceWidth s) s))"
  by pat_completeness auto
termination
  by (relation "measure length") auto

declare SkipSpace.simps [simp del]

text \<open>
  The literal text of a format: each of its characters must be the next input
  character.  Input that ends early is \<open>io.ErrUnexpectedEOF\<close>.
\<close>

fun matchLiteral :: "string \<Rightarrow> string \<Rightarrow> error + string" where
  "matchLiteral [] inp = Inr inp"
| "matchLiteral (f # fs) [] = Inl ErrUnexpectedEOF"
| "matchLiteral (f # fs) (c # cs) =
     (if f = c then matchLiteral fs cs
      else Inl (ScanError ''input does not match format''))"

definition isDigit :: "char \<Rightarrow> bool" where
  "isDigit c = (c \<in> set ''0123456789'')"

definition digitVal :: "char \<Rightarrow> nat" where
  "digitVal c = of_char c - 48"

text \<open>The value of a string of decimal digits.\<close>

definition decimalValue :: "string \<Rightarrow> nat" where
  "decimalValue tok = foldl (\<lambda>a c. 10 * a + digitVal c) 0 tok"

text \<open>
  \<open>scanNumber\<close>: the input must not be at its end and must start with a digit;
  the token is the longest run of digits, returned with the rest of the input.
\<close>

definition scanNumber :: "string \<Rightarrow> error + (string \<times> string)" where
  "scanNumber inp =
     (if inp = [] then Inl EOF
      else if \<not> isDigit (hd inp) then Inl (ScanError ''expected integer'')
      else Inr (takeWhile isDigit inp, dropWhile isDigit inp))"

text \<open>\<open>strconv.ParseUint tok 10 64\<close> on a token of digits.\<close>

definition ParseUint :: "string \<Rightarrow> error + nat" where
  "ParseUint tok =
     (if decimalValue tok \<ge> 2 ^ 64 then Inl (NumError ''ParseUint'' tok)
      else Inr (decimalValue tok))"

text \<open>\<open>strconv.ParseInt tok 10 64\<close> on a token of an optional sign and digits.\<close>

definition ParseInt :: "string \<Rightarrow> error + int" where
  "ParseInt tok =
     (let neg = (tok \<noteq> [] \<and> hd tok = CHR ''-'');
          ds = (if tok \<noteq> [] \<and> (hd tok = CHR ''+'' \<or> hd tok = CHR ''-'') then tl tok else tok);
          un = decimalValue ds
      in if \<not> neg \<and> un \<ge> 2 ^ 63 then Inl (NumError ''ParseInt'' tok)
         else if neg \<and> un > 2 ^ 63 then Inl (NumError ''ParseInt'' tok)
         else Inr (if neg then - int un else int un))"

text \<open>
  \<open>scanUint\<close> for the verb \<open>%d\<close> and a target of \<open>bitSize\<close> bits: no sign is
  accepted, and a value that does not fit the target is an error.
\<close>

definition scanUint :: "nat \<Rightarrow> string \<Rightarrow> error + (nat \<times> string)" where
  "scanUint bitSize inp =
     bindE (SkipSpace inp) (\<lambda>s.
       if s = [] then Inl EOF
       else bindE (scanNumber s) (\<lambda>(tok, rest).
         bindE (ParseUint tok) (\<lambda>i.
           if i \<ge> 2 ^ bitSize
           then Inl (ScanError (''unsigned integer overflow on token '' @ tok))
           else Inr (i, rest))))"

text \<open>
  \<open>scanInt\<close> for the verb \<open>%d\<close> and a target of type \<open>int\<close> (64 bits): one
  sign is accepted before the digits.
\<close>

definition scanInt :: "string \<Rightarrow> error + (int \<times> string)" where
  "scanInt inp =
     bindE (SkipSpace inp) (\<lambda>s.
       if s = [] then Inl EOF
       else (let sgn = (if hd s = CHR ''+'' \<or> hd s = CHR ''-'' then [hd s] else []);
                 s' = (if hd s = CHR ''+'' \<or> hd s = CHR ''-'' then tl s else s)
             in bindE (scanNumber s') (\<lambda>(tok, rest).
                  bindE (ParseInt (sgn @ tok)) (\<lambda>i. Inr (i, rest)))))"

text \<open>
  \<open>fmt.Sscanf(s, "v=%d", &ver)\<close>: the literal, then spaces are skipped, then
  the integer.  Input after the integer is not looked at.
\<close>

definition Sscanf_v :: "string \<Rightarrow> error + int" where
  "Sscanf_v inp =
     bindE (matchLiteral ''v='' inp) (\<lambda>s0.
     bindE (SkipSpace s0) (\<lambda>s1.
     bindE (scanInt s1) (\<lambda>(ver, rest). Inr ver)))"

text \<open>
  \<open>fmt.Sscanf(s, "m=%d,t=%d,p=%d", &p.Memory, &p.Iterations, &p.Parallelism)\<close>
  with targets of type \<open>uint32\<close>, \<open>uint32\<close> and \<open>uint8\<close>.
\<close>

definition Sscanf_mtp :: "string \<Rightarrow> error + (32 word \<times> 32 word \<times> 8 word)" where
  "Sscanf_mtp inp =
     bindE (matchLiteral ''m='' inp) (\<lambda>a0.
     bindE (SkipSpace a0) (\<lambda>a1.
     bindE (scanUint 32 a1) (\<lambda>(m, r1).
     bindE (matchLiteral '',t='' r1) (\<lambda>b0.
     bindE (SkipSpace b0) (\<lambda>b1.
     bindE (scanUint 32 b1) (\<lambda>(t, r2).
     bindE (matchLiteral '',p='' r2) (\<lambda>c0.
     bindE (SkipSpace c0) (\<lambda>c1.
     bindE (scanUint 8 c1) (\<lambda>(p, r3).
       Inr (of_nat m, of_nat t, of_nat p))))))))))"

text \<open>The decimal rendering of \<open>%d\<close>.\<close>

definition digitChar :: "nat \<Rightarrow> char" where
  "digitChar d = ''0123456789'' ! d"

fun FormatUint :: "nat \<Rightarrow> string" where
  "FormatUint n =
     (if n < 10 then [digitChar n] else FormatUint (n div 10) @ [digitChar (n mod 10)])"

declare FormatUint.simps [simp del]

definition FormatInt :: "int \<Rightarrow> string" where
  "FormatInt i = (if i < 0 then CHR ''-'' # FormatUint (nat (- i)) else FormatUint (nat i))"

subsection \<open>crypto/subtle\<close>



subsection \<open>io.ReadFull on the random source\<close>

text \<open>
  The random source is given by the bytes it delivers before it fails and the
  error it fails with.  \<open>io.ReadFull\<close> fills a buffer of \<open>n\<close> bytes or returns
  the error; an \<open>EOF\<close> after some bytes becomes \<open>ErrUnexpectedEOF\<close>.
\<close>

type_synonym reader = "bytes \<times> error"

definition ReadFull :: "reader \<Rightarrow> nat \<Rightarrow> error + bytes" where
  "ReadFull r n =
     (if n \<le> length (fst r) then Inr (take n (fst r))
      else Inl (if 0 < length (fst r) \<and> snd r = EOF then ErrUnexpectedEOF else snd r))"

subsection \<open>golang.org/x/crypto/argon2\<close>

text \<open>
  A call of a Go function either returns its results or panics.
\<close>

datatype 'a outcome = Panics | Returns 'a

text \<open>
  The key-derivation primitive \<open>argon2.IDKey(password, salt, time, memory,
  threads, keyLen)\<close> is not part of the package.  It panics when \<open>time < 1\<close>
  (number of rounds too small) and when \<open>threads < 1\<close> (parallelism degree too
  low); with \<open>keyLen = 0\<close> no output hash can be made and the call panics on it.
  Otherwise it returns a slice of \<open>keyLen\<close> bytes that is a function of the six
  arguments: the parameter \<open>kdf\<close> of the model gives the byte at each index.
  Any value of \<open>memory\<close> is taken (the primitive raises a small one itself).
  \<open>argon2.Version\<close> is the constant 0x13.
\<close>

type_synonym kdf =
  "bytes \<Rightarrow> bytes \<Rightarrow> 32 word \<Rightarrow> 32 word \<Rightarrow> 8 word \<Rightarrow> 32 word \<Rightarrow> nat \<Rightarrow> byte"

definition IDKey ::
  "kdf \<Rightarrow> bytes \<Rightarrow> bytes \<Rightarrow> 32 word \<Rightarrow> 32 word \<Rightarrow> 8 word \<Rightarrow> 32 word \<Rightarrow> bytes outcome" where
  "IDKey kdf password salt time memory threads keyLen =
     (if time < 1 then Panics
      else if threads < 1 then Panics
      else if keyLen = 0 then Panics
      else Returns (map (kdf password salt time memory threads keyLen) [0..<unat keyLen]))"

definition argon2_Version :: int where
  "argon2_Version = 0x13"

section \<open>The package\<close>

text \<open>
  \<open>decodeHash\<close>: the four results of the Go function are a sum here, the error
  on the left and the parameters, the salt and the hashed password on the right.
\<close>

definition decodeHash :: "string \<Rightarrow> error + (Params \<times> bytes \<times> bytes)" where
  "decodeHash hash =
     (let elems = Split hash (CHR ''$'') in
      if length elems \<noteq> 6 then Inl ErrInvalidHash
      else case Sscanf_v (elems ! 2) of
        Inl err \<Rightarrow> Inl err
      | Inr ver \<Rightarrow>
          if elems ! 1 \<noteq> ''argon2id'' \<or> ver \<noteq> argon2_Version then Inl ErrIncompatibleVersion
          else case Sscanf_mtp (elems ! 3) of
            Inl err \<Rightarrow> Inl err
          | Inr (m, t, par) \<Rightarrow>
              (case DecodeString (elems ! 4) of
                 Inl err \<Rightarrow> Inl err
               | Inr salt \<Rightarrow>
                   (case DecodeString (elems ! 5) of
                      Inl err \<Rightarrow> Inl err
                    | Inr hashedPassword \<Rightarrow>
                        Inr (\<lparr>Memory = m, Iterations = t, Parallelism = par,
                              SaltLength = of_nat (length salt),
                              KeyLength = of_nat (length hashedPassword)\<rparr>,
                             salt, hashedPassword))))"


text \<open>The parameters \<open>GenerateFromPassword\<close> uses when it is given nil.\<close>

definition defaultParams :: Params where
  "defaultParams = \<lparr>Memory = 4096, Iterations = 10, Parallelism = 2,
                     SaltLength = 32, KeyLength = 64\<rparr>"

text \<open>
  \<open>GenerateFromPassword\<close>: a nil pointer is \<open>None\<close>.  The random source
  \<open>rand.Reader\<close> is a parameter.  The call returns the record or an error, or
  panics where the primitive does.
\<close>

definition GenerateFromPassword ::
  "kdf \<Rightarrow> reader \<Rightarrow> bytes \<Rightarrow> Params option \<Rightarrow> (error + string) outcome" where
  "GenerateFromPassword kdf randReader pass popt =
     (let p = (case popt of None \<Rightarrow> defaultParams | Some q \<Rightarrow> q) in
      case ReadFull randReader (unat (SaltLength p)) of
        Inl err \<Rightarrow> Returns (Inl err)
      | Inr unencodedSalt \<Rightarrow>
          (case IDKey kdf pass unencodedSalt (Iterations p) (Memory p) (Parallelism p) (KeyLength p) of
             Panics \<Rightarrow> Panics
           | Returns hash \<Rightarrow>
               (let encodedSalt = EncodeToString unencodedSalt;
                    encodedHash = EncodeToString hash
                in Returns (Inr (''$argon2id$v='' @ FormatInt argon2_Version
                        @ ''$m='' @ FormatUint (unat (Memory p))
                        @ '',t='' @ FormatUint (unat (Iterations p))
                        @ '',p='' @ FormatUint (unat (Parallelism p))
                        @ ''$'' @ encodedSalt @ ''$'' @ encodedHash)))))"

section \<open>Auxiliary definitions for the statements\<close>

text \<open>The error values that are variables of the package itself.\<close>

definition isPackageError :: "error \<Rightarrow> bool" where
  "isPackageError e = (e = ErrInvalidHash \<or> e = ErrIncompatibleVersion \<or> e = ErrPasswordNotMatch)"

text \<open>
  The records of the package's test \<open>TestCompareHashAndPassword\<close>: a good
  record, one with the tag \<open>argon2i\<close>, and one without a version clause.
\<close>

definition record_ok :: string where
  "record_ok = ''$argon2id$v=19$m=4096,t=3,p=1$82XldKYgqAqher7EuFzPNw$O1Epnr+m1JYkgtWcgVLID39ro6He105HTFnE+SinJyM''"

definition record_argon2i :: string where
  "record_argon2i = ''$argon2i$v=19$m=4096,t=3,p=1$82XldKYgqAqher7EuFzPNw$O1Epnr+m1JYkgtWcgVLID39ro6He105HTFnE+SinJyM''"

definition record_no_version :: string where
  "record_no_version = ''$argon2id$m=4096,t=3,p=1$82XldKYgqAqher7EuFzPNw$O1Epnr+m1JYkgtWcgVLID39ro6He105HTFnE+SinJyM''"

text \<open>The salt and the key of the good record, as bytes.\<close>

definition salt_ok :: bytes where
  "salt_ok = [243, 101, 229, 116, 166, 32, 168, 10, 161, 122, 190, 196, 184, 92, 207, 55]"

definition key_ok :: bytes where
  "key_ok = [59, 81, 41, 158, 191, 166, 212, 150, 36, 130, 213, 156, 129, 82, 200, 15,
             127, 107, 163, 161, 222, 215, 78, 71, 76, 89, 196, 249, 40, 167, 39, 35]"



text \<open>
  The invariant the specification states for the parameters: every field is positive.
\<close>

definition validParams :: "Params \<Rightarrow> bool" where
  "validParams p =
     (0 < Memory p \<and> 0 < Iterations p \<and> 0 < Parallelism p \<and> 0 < SaltLength p \<and> 0 < KeyLength p)"

text \<open>A non-empty string of decimal digits.\<close>

definition isDigits :: "string \<Rightarrow> bool" where
  "isDigits ds = (ds \<noteq> [] \<and> list_all isDigit ds)"

text \<open>
  The canonical decimal rendering of a number: decimal digits with the value of the
  number and no leading zero.
\<close>

definition isDecimalOf :: "string \<Rightarrow> nat \<Rightarrow> bool" where
  "isDecimalOf s n = (isDigits s \<and> decimalValue s = n \<and> (hd s = CHR ''0'' \<longrightarrow> s = ''0''))"

text \<open>
  An unpadded standard base64 text of a byte string: characters of the standard
  alphabet only (so neither the padding character nor the two characters of the URL
  alphabet), four characters for every three bytes and two or three for a remainder
  of one or two bytes, and the decoder gives the bytes back.
\<close>

definition isRawStdBase64Of :: "string \<Rightarrow> bytes \<Rightarrow> bool" where
  "isRawStdBase64Of s bs =
     (list_all (\<lambda>c. c \<in> set ''ABCDEFGHIJKLMNOPQRSTUVWXYZabcdefghijklmnopqrstuvwxyz0123456789+/'') s \<and>
      length s = (4 * length bs + 2) div 3 \<and>
      DecodeString s = Inr bs)"

text \<open>
  Two instances of the primitive's output for the witnesses: all bytes zero, and the
  bytes of the key of the good record.
\<close>

definition kdf_zero :: kdf where
  "kdf_zero password salt time memory threads keyLen i = 0"


section \<open>Properties of the library functions\<close>

subsection \<open>Splitting\<close>

lemma Split_no_sep: "sep \<notin> set a \<Longrightarrow> Split a sep = [a]"
proof -
  assume "sep \<notin> set a"
  then have d: "dropWhile (\<lambda>c. c \<noteq> sep) a = []" by (induction a) auto
  show ?thesis by (subst Split.simps, subst d) simp
qed

lemma Split_append_sep: "sep \<notin> set a \<Longrightarrow> Split (a @ sep # rest) sep = a # Split rest sep"
proof -
  assume a: "sep \<notin> set a"
  then have d: "dropWhile (\<lambda>c. c \<noteq> sep) (a @ sep # rest) = sep # rest"
    by (induction a) auto
  from a have t: "takeWhile (\<lambda>c. c \<noteq> sep) (a @ sep # rest) = a"
    by (induction a) auto
  show ?thesis by (subst Split.simps, subst d, subst t) simp
qed

lemma Split_not_Nil: "Split s sep \<noteq> []"
  by (subst Split.simps) (simp split: list.splits)

subsection \<open>The errors of the library functions are not the package's own\<close>

lemma SkipSpace_error: "SkipSpace s = Inl e \<Longrightarrow> e = ScanError ''unexpected newline''"
proof (induction s rule: SkipSpace.induct)
  case (1 s)
  then show ?case
    by (subst (asm) (2) SkipSpace.simps) (auto split: if_splits)
qed

lemma SkipSpace_error_lib: "SkipSpace s = Inl e \<Longrightarrow> \<not> isPackageError e"
  by (auto simp: isPackageError_def dest: SkipSpace_error)

lemma matchLiteral_error: "matchLiteral f s = Inl e \<Longrightarrow> \<not> isPackageError e"
  by (induction f s rule: matchLiteral.induct) (auto simp: isPackageError_def split: if_splits)

lemma scanNumber_error: "scanNumber s = Inl e \<Longrightarrow> \<not> isPackageError e"
  by (auto simp: scanNumber_def isPackageError_def split: if_splits)

lemma scanUint_error: "scanUint b s = Inl e \<Longrightarrow> \<not> isPackageError e"
  by (auto simp: scanUint_def bindE_def ParseUint_def isPackageError_def
      dest!: SkipSpace_error scanNumber_error split: sum.splits if_splits prod.splits)

lemma scanInt_error: "scanInt s = Inl e \<Longrightarrow> \<not> isPackageError e"
  by (auto simp: scanInt_def bindE_def ParseInt_def Let_def isPackageError_def
      dest!: SkipSpace_error scanNumber_error split: sum.splits if_splits prod.splits)

lemma Sscanf_v_error: "Sscanf_v s = Inl e \<Longrightarrow> \<not> isPackageError e"
  by (auto simp: Sscanf_v_def bindE_def
      dest: SkipSpace_error_lib scanInt_error matchLiteral_error split: sum.splits prod.splits)

lemma Sscanf_mtp_error: "Sscanf_mtp s = Inl e \<Longrightarrow> \<not> isPackageError e"
  by (auto simp: Sscanf_mtp_def bindE_def
      dest: SkipSpace_error_lib scanUint_error matchLiteral_error split: sum.splits prod.splits)

lemma decodeFrom_error: "decodeFrom s si dbuf = Inl e \<Longrightarrow> \<exists>n. e = CorruptInputError n"
  by (induction s si dbuf rule: decodeFrom.induct) (auto simp: Let_def split: if_splits sum.splits)

lemma DecodeString_error: "DecodeString s = Inl e \<Longrightarrow> \<not> isPackageError e"
  by (auto simp: DecodeString_def isPackageError_def dest: decodeFrom_error)

subsection \<open>The constant-time comparison decides equality\<close>





subsection \<open>Base64: decoding inverts encoding\<close>

lemma lookupFrom_nth:
  "distinct xs \<Longrightarrow> i < length xs \<Longrightarrow> lookupFrom (xs ! i) xs k = of_nat (k + i)"
proof (induction xs arbitrary: i k)
  case Nil
  then show ?case by simp
next
  case (Cons x xs)
  show ?case
  proof (cases i)
    case 0
    then show ?thesis by simp
  next
    case (Suc j)
    with Cons.prems have "xs ! j \<noteq> x" "j < length xs" "distinct xs" by auto
    with Cons.IH [of j "Suc k"] Suc show ?thesis by simp
  qed
qed

lemma length_encodeStd: "length encodeStd = 64"
  by (simp add: encodeStd_def)

lemma distinct_encodeStd: "distinct encodeStd"
  by (simp add: encodeStd_def)

lemma unat_and_63: "unat (v AND 0x3F) < 64" for v :: "64 word"
proof -
  have "unat (v AND 0x3F) \<le> unat (0x3F :: 64 word)"
    by (rule word_and_le1 [THEN word_le_nat_alt [THEN iffD1]])
  then show ?thesis by simp
qed

lemma decodeMap_encChar: "decodeMap (encChar v) = ucast (v AND 0x3F)"
proof -
  have "decodeMap (encChar v) = of_nat (unat (v AND 0x3F))"
    using lookupFrom_nth [OF distinct_encodeStd, of "unat (v AND 0x3F)" 0] unat_and_63 [of v]
    by (simp add: decodeMap_def encChar_def length_encodeStd)
  then show ?thesis by simp
qed

lemma decodeMap_encChar_valid: "decodeMap (encChar v) \<noteq> 0xff"
proof -
  have "unat (ucast (v AND 0x3F) :: byte) \<le> unat (v AND 0x3F)"
    by (simp add: unsigned_ucast_eq take_bit_eq_mod)
  with unat_and_63 [of v] have "unat (ucast (v AND 0x3F) :: byte) < 255" by simp
  then show ?thesis by (auto simp: decodeMap_encChar)
qed

lemma encChar_in_alphabet: "encChar v \<in> set encodeStd"
  using unat_and_63 [of v] by (simp add: encChar_def length_encodeStd)

lemma and_63: "v AND 0x3F = take_bit 6 v" for v :: "64 word"
  by (simp add: take_bit_eq_mask mask_eq_exp_minus_1)

lemma Suc_Suc_diff_2: "\<not> n < 2 \<Longrightarrow> Suc (Suc (n - 2)) = n"
  by simp

lemma quantum3:
  fixes a b c :: byte
  defines "val \<equiv> push_bit 16 (ucast a) OR push_bit 8 (ucast b) OR ucast c :: 64 word"
  shows "quantumBytes [ucast (drop_bit 18 val AND 0x3F), ucast (drop_bit 12 val AND 0x3F),
                       ucast (drop_bit 6 val AND 0x3F), ucast (val AND 0x3F)] = [a, b, c]"
  unfolding quantumBytes_def val_def and_63
  apply (simp add: Let_def)
  apply (intro conjI bit_word_eqI)
    apply (auto simp: bit_simps Suc_Suc_diff_2 not_less [symmetric] dest: bit_imp_le_length)
  done

lemma quantum2:
  fixes a b :: byte
  defines "val \<equiv> push_bit 16 (ucast a) OR push_bit 8 (ucast b) :: 64 word"
  shows "quantumBytes [ucast (drop_bit 18 val AND 0x3F), ucast (drop_bit 12 val AND 0x3F),
                       ucast (drop_bit 6 val AND 0x3F)] = [a, b]"
  unfolding quantumBytes_def val_def and_63
  apply (simp add: Let_def)
  apply (intro conjI bit_word_eqI)
   apply (auto simp: bit_simps Suc_Suc_diff_2 not_less [symmetric] dest: bit_imp_le_length)
  done

lemma quantum1:
  fixes a :: byte
  defines "val \<equiv> push_bit 16 (ucast a) :: 64 word"
  shows "quantumBytes [ucast (drop_bit 18 val AND 0x3F), ucast (drop_bit 12 val AND 0x3F)] = [a]"
  unfolding quantumBytes_def val_def and_63
  apply (simp add: Let_def)
  apply (intro conjI bit_word_eqI)
  apply (auto simp: bit_simps Suc_Suc_diff_2 not_less [symmetric] dest: bit_imp_le_length)
  done

lemma decodeFrom_encChar:
  "decodeFrom (encChar v # cs) si dbuf =
     (if length dbuf = 3 then
        (case decodeFrom cs (Suc si) [] of
           Inl e \<Rightarrow> Inl e
         | Inr bs \<Rightarrow> Inr (quantumBytes (dbuf @ [ucast (v AND 0x3F)]) @ bs))
      else decodeFrom cs (Suc si) (dbuf @ [ucast (v AND 0x3F)]))"
  by (simp add: Let_def decodeMap_encChar decodeMap_encChar_valid [simplified decodeMap_encChar])

lemma decodeFrom_EncodeToString: "decodeFrom (EncodeToString xs) si [] = Inr xs"
proof (induction xs arbitrary: si rule: EncodeToString.induct)
  case (1 a b c rest)
  show ?case
    using quantum3 [of a b c]
    by (simp only: EncodeToString.simps Let_def append.simps decodeFrom_encChar "1.IH")
       (simp add: Let_def)
next
  case (2 a b)
  show ?case
    using quantum2 [of a b]
    by (simp only: EncodeToString.simps Let_def append.simps decodeFrom_encChar)
       (simp add: Let_def)
next
  case (3 a)
  show ?case
    using quantum1 [of a]
    by (simp only: EncodeToString.simps Let_def append.simps decodeFrom_encChar)
       (simp add: Let_def)
next
  case 4
  show ?case by simp
qed

lemma DecodeString_EncodeToString: "DecodeString (EncodeToString xs) = Inr xs"
  by (simp add: DecodeString_def decodeFrom_EncodeToString)

lemma EncodeToString_alphabet: "set (EncodeToString xs) \<subseteq> set encodeStd"
  by (induction xs rule: EncodeToString.induct) (simp_all add: Let_def encChar_in_alphabet)

lemma EncodeToString_no_dollar: "CHR ''$'' \<notin> set (EncodeToString xs)"
proof -
  have "CHR ''$'' \<notin> set encodeStd" by (simp add: encodeStd_def)
  with EncodeToString_alphabet [of xs] show ?thesis by blast
qed

lemma EncodeToString_no_padding: "CHR ''='' \<notin> set (EncodeToString xs)"
proof -
  have "CHR ''='' \<notin> set encodeStd" by (simp add: encodeStd_def)
  with EncodeToString_alphabet [of xs] show ?thesis by blast
qed

lemma length_EncodeToString: "length (EncodeToString xs) = (4 * length xs + 2) div 3"
  by (induction xs rule: EncodeToString.induct) (simp_all add: Let_def)

lemma decodeMap_dollar: "decodeMap (CHR ''$'') = 0xff"
  by (simp add: decodeMap_def encodeStd_def)

lemma decodeFrom_dollar: "CHR ''$'' \<in> set s \<Longrightarrow> \<exists>e. decodeFrom s si dbuf = Inl e"
proof (induction s arbitrary: si dbuf)
  case Nil
  then show ?case by simp
next
  case (Cons c cs)
  show ?case
  proof (cases "c = CHR ''$''")
    case True
    then show ?thesis by (simp add: decodeMap_dollar)
  next
    case False
    with Cons.prems have "CHR ''$'' \<in> set cs" by simp
    from Cons.IH [OF this] show ?thesis
      by (auto simp: Let_def split: sum.splits) (metis Inl_Inr_False)+
  qed
qed

lemma DecodeString_no_dollar: "DecodeString s = Inr bs \<Longrightarrow> CHR ''$'' \<notin> set s"
  using decodeFrom_dollar [of s 0 "[]"] by (auto simp: DecodeString_def)

subsection \<open>Decimal rendering and scanning\<close>

lemma digit_cases: "d < 10 \<Longrightarrow> d = 0 \<or> d = 1 \<or> d = 2 \<or> d = 3 \<or> d = 4 \<or> d = 5 \<or> d = 6 \<or> d = 7 \<or> d = 8 \<or> d = (9::nat)"
  by arith

lemma isDigit_digitChar: "d < 10 \<Longrightarrow> isDigit (digitChar d)"
  using digit_cases [of d] by (auto simp: isDigit_def digitChar_def)

lemma digitVal_digitChar: "d < 10 \<Longrightarrow> digitVal (digitChar d) = d"
  using digit_cases [of d] by (auto simp: digitVal_def digitChar_def)

lemma digitChar_zero_iff: "d < 10 \<Longrightarrow> (digitChar d = CHR ''0'') = (d = 0)"
  using digit_cases [of d] by (auto simp: digitChar_def)

lemma FormatUint_not_Nil: "FormatUint n \<noteq> []"
  by (subst FormatUint.simps) simp

lemma FormatUint_digits: "\<forall>c \<in> set (FormatUint n). isDigit c"
proof (induction n rule: FormatUint.induct)
  case (1 n)
  show ?case
  proof (cases "n < 10")
    case True
    then show ?thesis by (subst FormatUint.simps) (simp add: isDigit_digitChar)
  next
    case False
    with 1 show ?thesis by (subst FormatUint.simps) (simp add: isDigit_digitChar)
  qed
qed

lemma decimalValue_snoc: "decimalValue (xs @ [c]) = 10 * decimalValue xs + digitVal c"
  by (simp add: decimalValue_def)

lemma decimalValue_FormatUint: "decimalValue (FormatUint n) = n"
proof (induction n rule: FormatUint.induct)
  case (1 n)
  show ?case
  proof (cases "n < 10")
    case True
    then show ?thesis
      by (subst FormatUint.simps) (simp add: decimalValue_def digitVal_digitChar)
  next
    case False
    with 1 show ?thesis
      by (subst FormatUint.simps) (simp add: decimalValue_snoc digitVal_digitChar)
  qed
qed

lemma hd_FormatUint: "hd (FormatUint n) = CHR ''0'' \<longleftrightarrow> n = 0"
proof (induction n rule: FormatUint.induct)
  case (1 n)
  show ?case
  proof (cases "n < 10")
    case True
    then show ?thesis by (subst FormatUint.simps) (simp add: digitChar_zero_iff)
  next
    case False
    with 1 show ?thesis
      by (subst FormatUint.simps) (simp add: FormatUint_not_Nil)
  qed
qed

lemma isDigit_range: "isDigit c \<Longrightarrow> 48 \<le> (of_char c :: nat) \<and> (of_char c :: nat) \<le> 57"
  by (auto simp: isDigit_def)
lemma isDigit_not_space: 
  assumes "isDigit c" shows "spaceWidth (c # cs) = 0 \<and> c \<noteq> CHR 0x0A"
proof -
  from isDigit_range [OF assms] have r: "48 \<le> (of_char c :: nat)" "(of_char c :: nat) \<le> 57" by auto
  have ne: "c \<noteq> d" if "(of_char d :: nat) < 48 \<or> 57 < (of_char d :: nat)" for d
    using that r by auto
  have "c \<noteq> CHR 0x0A" "c \<noteq> CHR 0x20" "c \<noteq> CHR 0xC2" "c \<noteq> CHR 0xE1" "c \<noteq> CHR 0xE2" "c \<noteq> CHR 0xE3"
    by (rule ne, simp)+
  moreover have "\<not> isSpaceByte c" using r by (simp add: isSpaceByte_def \<open>c \<noteq> CHR 0x20\<close>)
  ultimately show ?thesis by (simp add: spaceWidth_def)
qed

lemma SkipSpace_digit: "isDigit c \<Longrightarrow> SkipSpace (c # cs) = Inr (c # cs)"
  using isDigit_not_space [of c cs] by (subst SkipSpace.simps) simp

lemma SkipSpace_digits:
  assumes "ds \<noteq> []" and "\<forall>c \<in> set ds. isDigit c"
  shows "SkipSpace (ds @ rest) = Inr (ds @ rest)"
proof -
  obtain c cs where f: "ds = c # cs" using assms(1) by (cases ds) auto
  with assms(2) have "isDigit c" by simp
  then show ?thesis by (simp add: f SkipSpace_digit)
qed

lemma takeWhile_digits:
  "\<forall>c \<in> set ds. isDigit c \<Longrightarrow> rest = [] \<or> \<not> isDigit (hd rest) \<Longrightarrow>
   takeWhile isDigit (ds @ rest) = ds \<and> dropWhile isDigit (ds @ rest) = rest"
proof -
  assume ds: "\<forall>c \<in> set ds. isDigit c" and r: "rest = [] \<or> \<not> isDigit (hd rest)"
  from r have "takeWhile isDigit rest = [] \<and> dropWhile isDigit rest = rest"
    by (cases rest) auto
  with ds show ?thesis by (induction ds) auto
qed

lemma scanNumber_digits:
  assumes "ds \<noteq> []" and "\<forall>c \<in> set ds. isDigit c" and "rest = [] \<or> \<not> isDigit (hd rest)"
  shows "scanNumber (ds @ rest) = Inr (ds, rest)"
proof -
  obtain c cs where f: "ds = c # cs" using assms(1) by (cases ds) auto
  with assms(2) have "isDigit c" by simp
  with takeWhile_digits [OF assms(2) assms(3)] f show ?thesis
    by (simp add: scanNumber_def)
qed

lemma scanUint_digits:
  assumes "ds \<noteq> []" and "\<forall>c \<in> set ds. isDigit c" and "rest = [] \<or> \<not> isDigit (hd rest)"
    and "decimalValue ds < 2 ^ bitSize" and "bitSize \<le> 64"
  shows "scanUint bitSize (ds @ rest) = Inr (decimalValue ds, rest)"
proof -
  from assms(5) have "(2::nat) ^ bitSize \<le> 2 ^ 64" by (rule power_increasing) simp
  with assms(4) have "decimalValue ds < 2 ^ 64" by simp
  with assms(1,4) show ?thesis
    by (simp add: scanUint_def bindE_def SkipSpace_digits [OF assms(1,2)]
        scanNumber_digits [OF assms(1,2,3)] ParseUint_def)
qed

lemma Sscanf_mtp_digits:
  assumes "dm \<noteq> []" and "\<forall>c \<in> set dm. isDigit c" and "decimalValue dm < 2 ^ 32"
    and "dt \<noteq> []" and "\<forall>c \<in> set dt. isDigit c" and "decimalValue dt < 2 ^ 32"
    and "dp \<noteq> []" and "\<forall>c \<in> set dp. isDigit c" and "decimalValue dp < 2 ^ 8"
  shows "Sscanf_mtp (''m='' @ dm @ '',t='' @ dt @ '',p='' @ dp)
         = Inr (of_nat (decimalValue dm), of_nat (decimalValue dt), of_nat (decimalValue dp))"
proof -
  have c: "\<not> isDigit (CHR '','')" by (simp add: isDigit_def)
  have 1: "scanUint 32 (dm @ '',t='' @ dt @ '',p='' @ dp)
           = Inr (decimalValue dm, '',t='' @ dt @ '',p='' @ dp)"
    using assms(1,2,3) c by (intro scanUint_digits) simp_all
  have 2: "scanUint 32 (dt @ '',p='' @ dp) = Inr (decimalValue dt, '',p='' @ dp)"
    using assms(4,5,6) c by (intro scanUint_digits) simp_all
  have 3: "scanUint 8 dp = Inr (decimalValue dp, [])"
    using assms(7,8,9) scanUint_digits [of dp "[]" 8] by simp
  show ?thesis
    using 1 2 3
    by (simp add: Sscanf_mtp_def bindE_def SkipSpace_digits [OF assms(1,2)]
        SkipSpace_digits [OF assms(4,5)] SkipSpace_digits [OF assms(7,8), of "[]", simplified])
qed

lemma Sscanf_mtp_Format:
  assumes "m < 2 ^ 32" and "t < 2 ^ 32" and "p < 2 ^ 8"
  shows "Sscanf_mtp (''m='' @ FormatUint m @ '',t='' @ FormatUint t @ '',p='' @ FormatUint p)
         = Inr (of_nat m, of_nat t, of_nat p)"
  using Sscanf_mtp_digits [of "FormatUint m" "FormatUint t" "FormatUint p"] assms
  by (simp add: FormatUint_not_Nil FormatUint_digits decimalValue_FormatUint)

lemma FormatUint_no_dollar: "CHR ''$'' \<notin> set (FormatUint n)"
proof -
  have "\<not> isDigit (CHR ''$'')" by (simp add: isDigit_def)
  with FormatUint_digits [of n] show ?thesis by blast
qed

subsection \<open>Evaluation on the test records\<close>

lemmas scan_defs = bindE_def SkipSpace.simps spaceWidth_def isSpaceByte_def scanInt_def
  scanUint_def scanNumber_def isDigit_def ParseInt_def ParseUint_def decimalValue_def digitVal_def

lemma Split_record_ok:
  "Split record_ok (CHR ''$'') =
     ['''', ''argon2id'', ''v=19'', ''m=4096,t=3,p=1'', ''82XldKYgqAqher7EuFzPNw'',
      ''O1Epnr+m1JYkgtWcgVLID39ro6He105HTFnE+SinJyM'']"
  unfolding record_ok_def by code_simp

lemma Split_record_argon2i:
  "Split record_argon2i (CHR ''$'') =
     ['''', ''argon2i'', ''v=19'', ''m=4096,t=3,p=1'', ''82XldKYgqAqher7EuFzPNw'',
      ''O1Epnr+m1JYkgtWcgVLID39ro6He105HTFnE+SinJyM'']"
  unfolding record_argon2i_def by code_simp

lemma Split_record_no_version:
  "Split record_no_version (CHR ''$'') =
     ['''', ''argon2id'', ''m=4096,t=3,p=1'', ''82XldKYgqAqher7EuFzPNw'',
      ''O1Epnr+m1JYkgtWcgVLID39ro6He105HTFnE+SinJyM'']"
  unfolding record_no_version_def by code_simp

lemma Sscanf_v_19: "Sscanf_v ''v=19'' = Inr 19"
  by (simp add: Sscanf_v_def scan_defs)

lemma Sscanf_mtp_4096_3_1: "Sscanf_mtp ''m=4096,t=3,p=1'' = Inr (4096, 3, 1)"
  by (simp add: Sscanf_mtp_def scan_defs)


lemma DecodeString_salt:
  "DecodeString ''82XldKYgqAqher7EuFzPNw'' =
     Inr [243, 101, 229, 116, 166, 32, 168, 10, 161, 122, 190, 196, 184, 92, 207, 55]"
  by code_simp
lemma DecodeString_key:
  "DecodeString ''O1Epnr+m1JYkgtWcgVLID39ro6He105HTFnE+SinJyM'' =
     Inr [59, 81, 41, 158, 191, 166, 212, 150, 36, 130, 213, 156, 129, 82, 200, 15,
          127, 107, 163, 161, 222, 215, 78, 71, 76, 89, 196, 249, 40, 167, 39, 35]"
  by code_simp


lemma decodeHash_record_ok:
  "decodeHash record_ok =
     Inr (\<lparr>Memory = 4096, Iterations = 3, Parallelism = 1, SaltLength = 16, KeyLength = 32\<rparr>,
          [243, 101, 229, 116, 166, 32, 168, 10, 161, 122, 190, 196, 184, 92, 207, 55],
          [59, 81, 41, 158, 191, 166, 212, 150, 36, 130, 213, 156, 129, 82, 200, 15,
           127, 107, 163, 161, 222, 215, 78, 71, 76, 89, 196, 249, 40, 167, 39, 35])"
  by (simp add: decodeHash_def Split_record_ok Sscanf_v_19 Sscanf_mtp_4096_3_1
      DecodeString_salt DecodeString_key argon2_Version_def)

subsection \<open>Decoding a record of the generated form\<close>

lemma Split_generated:
  assumes "CHR ''$'' \<notin> set clause" and "CHR ''$'' \<notin> set es" and "CHR ''$'' \<notin> set eh"
  shows "Split (''$argon2id$v=19$'' @ clause @ ''$'' @ es @ ''$'' @ eh) (CHR ''$'')
         = ['''', ''argon2id'', ''v=19'', clause, es, eh]"
proof -
  have 5: "Split eh (CHR ''$'') = [eh]" using assms(3) by (rule Split_no_sep)
  have 4: "Split (es @ CHR ''$'' # eh) (CHR ''$'') = [es, eh]"
    using Split_append_sep [OF assms(2), of eh] 5 by simp
  have 3: "Split (clause @ CHR ''$'' # es @ CHR ''$'' # eh) (CHR ''$'') = [clause, es, eh]"
    using Split_append_sep [OF assms(1), of "es @ CHR ''$'' # eh"] 4 by simp
  have 2: "Split (''v=19'' @ CHR ''$'' # clause @ CHR ''$'' # es @ CHR ''$'' # eh) (CHR ''$'')
           = [''v=19'', clause, es, eh]"
    using Split_append_sep [of "CHR ''$''" "''v=19''" "clause @ CHR ''$'' # es @ CHR ''$'' # eh"] 3
    by simp
  have 1: "Split (''argon2id'' @ CHR ''$'' # ''v=19'' @ CHR ''$'' # clause @ CHR ''$'' # es @ CHR ''$'' # eh) (CHR ''$'')
           = [''argon2id'', ''v=19'', clause, es, eh]"
    using Split_append_sep [of "CHR ''$''" "''argon2id''"
        "''v=19'' @ CHR ''$'' # clause @ CHR ''$'' # es @ CHR ''$'' # eh"] 2
    by simp
  have 0: "Split ([] @ CHR ''$'' # ''argon2id'' @ CHR ''$'' # ''v=19'' @ CHR ''$'' # clause @ CHR ''$'' # es @ CHR ''$'' # eh) (CHR ''$'')
           = ['''', ''argon2id'', ''v=19'', clause, es, eh]"
    using Split_append_sep [of "CHR ''$''" "[]"
        "''argon2id'' @ CHR ''$'' # ''v=19'' @ CHR ''$'' # clause @ CHR ''$'' # es @ CHR ''$'' # eh"] 1
    by simp
  then show ?thesis by simp
qed

lemma digits_no_dollar: "\<forall>c \<in> set ds. isDigit c \<Longrightarrow> CHR ''$'' \<notin> set ds"
proof -
  assume d: "\<forall>c \<in> set ds. isDigit c"
  have "\<not> isDigit (CHR ''$'')" by (simp add: isDigit_def)
  with d show ?thesis by blast
qed

lemma decodeHash_clause:
  assumes c: "Sscanf_mtp clause = Inr (m, t, par)" and nd: "CHR ''$'' \<notin> set clause"
    and ds: "DecodeString es = Inr salt" and dh: "DecodeString eh = Inr key"
  shows "decodeHash (''$argon2id$v=19$'' @ clause @ ''$'' @ es @ ''$'' @ eh)
        = Inr (\<lparr>Memory = m, Iterations = t, Parallelism = par,
                SaltLength = of_nat (length salt), KeyLength = of_nat (length key)\<rparr>, salt, key)"
proof -
  have s: "Split (''$argon2id$v=19$'' @ clause @ ''$'' @ es @ ''$'' @ eh) (CHR ''$'')
           = ['''', ''argon2id'', ''v=19'', clause, es, eh]"
    by (rule Split_generated [OF nd DecodeString_no_dollar [OF ds] DecodeString_no_dollar [OF dh]])
  show ?thesis
    unfolding decodeHash_def s Let_def
    by (simp add: Sscanf_v_19 c ds dh argon2_Version_def)
qed

lemma decodeHash_digits:
  assumes "dm \<noteq> []" and "\<forall>c \<in> set dm. isDigit c" and "decimalValue dm < 2 ^ 32"
    and "dt \<noteq> []" and "\<forall>c \<in> set dt. isDigit c" and "decimalValue dt < 2 ^ 32"
    and "dp \<noteq> []" and "\<forall>c \<in> set dp. isDigit c" and "decimalValue dp < 2 ^ 8"
    and ds: "DecodeString es = Inr salt" and dh: "DecodeString eh = Inr key"
  shows "decodeHash (''$argon2id$v=19$m='' @ dm @ '',t='' @ dt @ '',p='' @ dp @ ''$'' @ es @ ''$'' @ eh)
        = Inr (\<lparr>Memory = of_nat (decimalValue dm), Iterations = of_nat (decimalValue dt),
                Parallelism = of_nat (decimalValue dp),
                SaltLength = of_nat (length salt), KeyLength = of_nat (length key)\<rparr>, salt, key)"
proof -
  define clause where "clause = ''m='' @ dm @ '',t='' @ dt @ '',p='' @ dp"
  have c: "Sscanf_mtp clause = Inr (of_nat (decimalValue dm), of_nat (decimalValue dt), of_nat (decimalValue dp))"
    unfolding clause_def by (rule Sscanf_mtp_digits [OF assms(1-9)])
  have nd: "CHR ''$'' \<notin> set clause"
    using digits_no_dollar [OF assms(2)] digits_no_dollar [OF assms(5)] digits_no_dollar [OF assms(8)]
    by (simp add: clause_def)
  from decodeHash_clause [OF c nd ds dh] show ?thesis by (simp add: clause_def)
qed

lemma unat_32_bound: "unat (w :: 32 word) < 2 ^ 32"
  using unsigned_less [of w, where 'a = nat] by simp

lemma unat_8_bound: "unat (w :: 8 word) < 2 ^ 8"
  using unsigned_less [of w, where 'a = nat] by simp

lemma decodeHash_generated:
  "decodeHash (''$argon2id$v=19$m='' @ FormatUint (unat m) @ '',t='' @ FormatUint (unat t)
               @ '',p='' @ FormatUint (unat par) @ ''$'' @ EncodeToString salt @ ''$'' @ EncodeToString key)
   = Inr (\<lparr>Memory = m, Iterations = t, Parallelism = par,
           SaltLength = of_nat (length salt), KeyLength = of_nat (length key)\<rparr>, salt, key)"
  using decodeHash_digits [of "FormatUint (unat m)" "FormatUint (unat t)" "FormatUint (unat par)"
      "EncodeToString salt" salt "EncodeToString key" key]
    unat_32_bound [of m] unat_32_bound [of t] unat_8_bound [of par]
  by (simp add: FormatUint_not_Nil FormatUint_digits decimalValue_FormatUint DecodeString_EncodeToString)

subsection \<open>The primitive and further evaluations\<close>

lemma IDKey_Returns:
  "time \<noteq> 0 \<Longrightarrow> threads \<noteq> 0 \<Longrightarrow> keyLen \<noteq> 0 \<Longrightarrow>
   IDKey kdf password salt time memory threads keyLen =
     Returns (map (kdf password salt time memory threads keyLen) [0..<unat keyLen])"
  by (simp add: IDKey_def)

lemma IDKey_Panics_iff:
  "IDKey kdf password salt time memory threads keyLen = Panics \<longleftrightarrow>
     time = 0 \<or> threads = 0 \<or> keyLen = 0"
  by (simp add: IDKey_def)

lemma IDKey_length:
  "IDKey kdf password salt time memory threads keyLen = Returns key \<Longrightarrow> length key = unat keyLen"
  by (auto simp: IDKey_def split: if_splits)






lemma decodeHash_record_ok_named:
  "decodeHash record_ok =
     Inr (\<lparr>Memory = 4096, Iterations = 3, Parallelism = 1, SaltLength = 16, KeyLength = 32\<rparr>,
          salt_ok, key_ok)"
  by (simp add: decodeHash_record_ok salt_ok_def key_ok_def)



lemma EncodeToString_salt_ok: "EncodeToString salt_ok = ''82XldKYgqAqher7EuFzPNw''"
  unfolding salt_ok_def by code_simp

lemma EncodeToString_key_ok: "EncodeToString key_ok = ''O1Epnr+m1JYkgtWcgVLID39ro6He105HTFnE+SinJyM''"
  unfolding key_ok_def by code_simp

lemma isDigits_iff: "isDigits ds \<longleftrightarrow> ds \<noteq> [] \<and> (\<forall>c \<in> set ds. isDigit c)"
  by (simp add: isDigits_def list_all_iff)

section \<open>The decoder\<close>

text \<open>
  Claim C3.  Decoding returns \<open>ErrInvalidHash\<close> if and only if splitting the record
  on the dollar sign does not give six segments: no other failure of the decoder is
  this error.  The witness is the five-segment record of the package's test.
\<close>

theorem decodeHash_invalid_iff:
  "decodeHash hash = Inl ErrInvalidHash \<longleftrightarrow> length (Split hash (CHR ''$'')) \<noteq> 6"
proof
  assume r: "decodeHash hash = Inl ErrInvalidHash"
  show "length (Split hash (CHR ''$'')) \<noteq> 6"
  proof
    assume six: "length (Split hash (CHR ''$'')) = 6"
    have np: "\<not> isPackageError e" if "decodeHash hash = Inl e" "e \<noteq> ErrIncompatibleVersion" for e
      using that six
      by (auto simp: decodeHash_def Let_def
          dest: Sscanf_v_error Sscanf_mtp_error DecodeString_error
          split: sum.splits if_splits prod.splits)
    from np [OF r] show False by (simp add: isPackageError_def)
  qed
next
  assume "length (Split hash (CHR ''$'')) \<noteq> 6"
  then show "decodeHash hash = Inl ErrInvalidHash"
    by (simp add: decodeHash_def)
qed

theorem decodeHash_invalid_iff_witness:
  "length (Split record_no_version (CHR ''$'')) = 5 \<and> decodeHash record_no_version = Inl ErrInvalidHash"
  using decodeHash_invalid_iff [of record_no_version]
  by (simp add: Split_record_no_version)

text \<open>
  Claim C4.  For a record of six segments whose version clause scans as \<open>v=\<close> and an
  integer, decoding returns \<open>ErrIncompatibleVersion\<close> if and only if the tag is not
  \<open>argon2id\<close> or the scanned version is not \<open>argon2.Version\<close>.  The witness is
  the record with the tag \<open>argon2i\<close>, whose error is not \<open>ErrInvalidHash\<close>.
\<close>

theorem decodeHash_incompatible_iff:
  assumes "length (Split hash (CHR ''$'')) = 6"
    and "Sscanf_v (Split hash (CHR ''$'') ! 2) = Inr ver"
  shows "decodeHash hash = Inl ErrIncompatibleVersion \<longleftrightarrow>
         (Split hash (CHR ''$'') ! 1 \<noteq> ''argon2id'' \<or> ver \<noteq> argon2_Version)"
proof
  assume r: "decodeHash hash = Inl ErrIncompatibleVersion"
  show "Split hash (CHR ''$'') ! 1 \<noteq> ''argon2id'' \<or> ver \<noteq> argon2_Version"
  proof (rule ccontr)
    assume "\<not> ?thesis"
    then have ok: "Split hash (CHR ''$'') ! 1 = ''argon2id''" "ver = argon2_Version" by auto
    have "\<not> isPackageError e" if "decodeHash hash = Inl e" for e
      using that assms ok
      by (auto simp: decodeHash_def Let_def
          dest: Sscanf_mtp_error DecodeString_error
          split: sum.splits if_splits prod.splits)
    from this [OF r] show False by (simp add: isPackageError_def)
  qed
next
  assume "Split hash (CHR ''$'') ! 1 \<noteq> ''argon2id'' \<or> ver \<noteq> argon2_Version"
  with assms show "decodeHash hash = Inl ErrIncompatibleVersion"
    by (auto simp: decodeHash_def Let_def)
qed

theorem decodeHash_incompatible_iff_witness:
  "length (Split record_argon2i (CHR ''$'')) = 6 \<and>
   Sscanf_v (Split record_argon2i (CHR ''$'') ! 2) = Inr 19 \<and>
   Split record_argon2i (CHR ''$'') ! 1 = ''argon2i'' \<and>
   decodeHash record_argon2i = Inl ErrIncompatibleVersion \<and>
   decodeHash record_argon2i \<noteq> Inl ErrInvalidHash"
  using decodeHash_incompatible_iff [of record_argon2i 19]
  by (simp add: Split_record_argon2i Sscanf_v_19)

text \<open>
  Claim C7.  On a successful decode the parameters carry the three values scanned
  from the parameter clause, the salt and the key are the base64 decodings of the
  fifth and sixth segments, and \<open>SaltLength\<close> and \<open>KeyLength\<close> are the lengths of the
  decoded salt and key converted to \<open>uint32\<close> (the lengths themselves below \<open>2^32\<close>);
  they are not read from the string.  The values scanned are the numbers written in
  the clause: a record \<open>$argon2id$v=19$m=\<close>\<^emph>\<open>dm\<close>\<open>,t=\<close>\<^emph>\<open>dt\<close>\<open>,p=\<close>\<^emph>\<open>dp\<close>\<open>$\<close>\<^emph>\<open>es\<close>\<open>$\<close>\<^emph>\<open>eh\<close>
  whose three numbers are strings of decimal digits in the range of their fields and
  whose last two segments are base64 decodes with memory, iterations and parallelism
  the decimal values of the three strings.  The decimal value is the one that renders
  back: the value of the rendering of \<open>n\<close> is \<open>n\<close>.  The record of the test decodes to
  memory 4096, iterations 3, parallelism 1, a salt of 16 bytes and a key of 32 bytes.
\<close>

theorem decodeHash_params:
  "(\<forall>p salt key. decodeHash hash = Inr (p, salt, key) \<longrightarrow>
      Sscanf_mtp (Split hash (CHR ''$'') ! 3) = Inr (Memory p, Iterations p, Parallelism p) \<and>
      DecodeString (Split hash (CHR ''$'') ! 4) = Inr salt \<and>
      DecodeString (Split hash (CHR ''$'') ! 5) = Inr key \<and>
      SaltLength p = of_nat (length salt) \<and>
      KeyLength p = of_nat (length key) \<and>
      (length salt < 2 ^ 32 \<longrightarrow> unat (SaltLength p) = length salt) \<and>
      (length key < 2 ^ 32 \<longrightarrow> unat (KeyLength p) = length key)) \<and>
   (\<forall>dm dt dp es eh salt key.
      isDigits dm \<and> decimalValue dm < 2 ^ 32 \<and>
      isDigits dt \<and> decimalValue dt < 2 ^ 32 \<and>
      isDigits dp \<and> decimalValue dp < 2 ^ 8 \<and>
      DecodeString es = Inr salt \<and> DecodeString eh = Inr key \<longrightarrow>
      decodeHash (''$argon2id$v=19$m='' @ dm @ '',t='' @ dt @ '',p='' @ dp @ ''$'' @ es @ ''$'' @ eh)
        = Inr (\<lparr>Memory = of_nat (decimalValue dm), Iterations = of_nat (decimalValue dt),
                Parallelism = of_nat (decimalValue dp),
                SaltLength = of_nat (length salt), KeyLength = of_nat (length key)\<rparr>, salt, key)) \<and>
   (\<forall>n. decimalValue (FormatUint n) = n \<and> isDigits (FormatUint n)) \<and>
   (\<exists>p. decodeHash record_ok = Inr (p, salt_ok, key_ok) \<and>
      Memory p = 4096 \<and> Iterations p = 3 \<and> Parallelism p = 1 \<and>
      unat (SaltLength p) = length salt_ok \<and> unat (KeyLength p) = length key_ok)"
proof -
  have general: "Sscanf_mtp (Split hash (CHR ''$'') ! 3) = Inr (Memory p, Iterations p, Parallelism p) \<and>
      DecodeString (Split hash (CHR ''$'') ! 4) = Inr salt \<and>
      DecodeString (Split hash (CHR ''$'') ! 5) = Inr key \<and>
      SaltLength p = of_nat (length salt) \<and>
      KeyLength p = of_nat (length key)"
    if "decodeHash hash = Inr (p, salt, key)" for p salt key
    using that
    by (auto simp: decodeHash_def Let_def split: if_splits sum.splits prod.splits)
  have len: "unat (of_nat n :: 32 word) = n" if "n < 2 ^ 32" for n
    using that by (simp add: unat_of_nat)
  have digits: "decodeHash (''$argon2id$v=19$m='' @ dm @ '',t='' @ dt @ '',p='' @ dp @ ''$'' @ es @ ''$'' @ eh)
        = Inr (\<lparr>Memory = of_nat (decimalValue dm), Iterations = of_nat (decimalValue dt),
                Parallelism = of_nat (decimalValue dp),
                SaltLength = of_nat (length salt), KeyLength = of_nat (length key)\<rparr>, salt, key)"
    if "isDigits dm \<and> decimalValue dm < 2 ^ 32 \<and>
      isDigits dt \<and> decimalValue dt < 2 ^ 32 \<and>
      isDigits dp \<and> decimalValue dp < 2 ^ 8 \<and>
      DecodeString es = Inr salt \<and> DecodeString eh = Inr key" for dm dt dp es eh salt key
    using that by (intro decodeHash_digits) (simp_all add: isDigits_iff)
  have render: "decimalValue (FormatUint n) = n \<and> isDigits (FormatUint n)" for n
    by (simp add: decimalValue_FormatUint isDigits_iff FormatUint_not_Nil FormatUint_digits)
  have concrete: "\<exists>p. decodeHash record_ok = Inr (p, salt_ok, key_ok) \<and>
      Memory p = 4096 \<and> Iterations p = 3 \<and> Parallelism p = 1 \<and>
      unat (SaltLength p) = length salt_ok \<and> unat (KeyLength p) = length key_ok"
    by (simp add: decodeHash_record_ok salt_ok_def key_ok_def)
  from general len have g2: "\<forall>p salt key. decodeHash hash = Inr (p, salt, key) \<longrightarrow>
      Sscanf_mtp (Split hash (CHR ''$'') ! 3) = Inr (Memory p, Iterations p, Parallelism p) \<and>
      DecodeString (Split hash (CHR ''$'') ! 4) = Inr salt \<and>
      DecodeString (Split hash (CHR ''$'') ! 5) = Inr key \<and>
      SaltLength p = of_nat (length salt) \<and>
      KeyLength p = of_nat (length key) \<and>
      (length salt < 2 ^ 32 \<longrightarrow> unat (SaltLength p) = length salt) \<and>
      (length key < 2 ^ 32 \<longrightarrow> unat (KeyLength p) = length key)"
    by auto
  from digits have d2: "\<forall>dm dt dp es eh salt key.
      isDigits dm \<and> decimalValue dm < 2 ^ 32 \<and>
      isDigits dt \<and> decimalValue dt < 2 ^ 32 \<and>
      isDigits dp \<and> decimalValue dp < 2 ^ 8 \<and>
      DecodeString es = Inr salt \<and> DecodeString eh = Inr key \<longrightarrow>
      decodeHash (''$argon2id$v=19$m='' @ dm @ '',t='' @ dt @ '',p='' @ dp @ ''$'' @ es @ ''$'' @ eh)
        = Inr (\<lparr>Memory = of_nat (decimalValue dm), Iterations = of_nat (decimalValue dt),
                Parallelism = of_nat (decimalValue dp),
                SaltLength = of_nat (length salt), KeyLength = of_nat (length key)\<rparr>, salt, key)"
    by blast
  from g2 d2 render concrete show ?thesis by blast
qed

theorem decodeHash_params_witness:
  "Sscanf_mtp (Split record_ok (CHR ''$'') ! 3) = Inr (4096, 3, 1) \<and>
   DecodeString (Split record_ok (CHR ''$'') ! 4) = Inr salt_ok \<and>
   DecodeString (Split record_ok (CHR ''$'') ! 5) = Inr key_ok \<and>
   length salt_ok = 16 \<and> length key_ok = 32 \<and>
   decodeHash ''$argon2id$v=19$m=65536,t=2,p=004$82XldKYgqAqher7EuFzPNw$O1Epnr+m1JYkgtWcgVLID39ro6He105HTFnE+SinJyM''
     = Inr (\<lparr>Memory = 65536, Iterations = 2, Parallelism = 4, SaltLength = 16, KeyLength = 32\<rparr>,
            salt_ok, key_ok)"
proof -
  have d: "isDigits ''65536'' \<and> decimalValue ''65536'' < 2 ^ 32 \<and>
      isDigits ''2'' \<and> decimalValue ''2'' < 2 ^ 32 \<and>
      isDigits ''004'' \<and> decimalValue ''004'' < 2 ^ 8 \<and>
      DecodeString ''82XldKYgqAqher7EuFzPNw'' = Inr salt_ok \<and>
      DecodeString ''O1Epnr+m1JYkgtWcgVLID39ro6He105HTFnE+SinJyM'' = Inr key_ok"
    by (simp add: isDigits_def isDigit_def decimalValue_def digitVal_def
        DecodeString_salt DecodeString_key salt_ok_def key_ok_def)
  have v: "decimalValue ''65536'' = 65536" "decimalValue ''2'' = 2" "decimalValue ''004'' = 4"
    by (simp_all add: decimalValue_def digitVal_def)
  have l: "length salt_ok = 16" "length key_ok = 32" by (simp_all add: salt_ok_def key_ok_def)
  from decodeHash_params [of record_ok] decodeHash_record_ok_named
  have a: "Sscanf_mtp (Split record_ok (CHR ''$'') ! 3) = Inr (4096, 3, 1) \<and>
   DecodeString (Split record_ok (CHR ''$'') ! 4) = Inr salt_ok \<and>
   DecodeString (Split record_ok (CHR ''$'') ! 5) = Inr key_ok"
    by simp
  from decodeHash_params [of record_ok] d
  have "decodeHash (''$argon2id$v=19$m='' @ ''65536'' @ '',t='' @ ''2'' @ '',p='' @ ''004'' @ ''$''
          @ ''82XldKYgqAqher7EuFzPNw'' @ ''$'' @ ''O1Epnr+m1JYkgtWcgVLID39ro6He105HTFnE+SinJyM'')
     = Inr (\<lparr>Memory = of_nat (decimalValue ''65536''), Iterations = of_nat (decimalValue ''2''),
                Parallelism = of_nat (decimalValue ''004''),
                SaltLength = of_nat (length salt_ok), KeyLength = of_nat (length key_ok)\<rparr>, salt_ok, key_ok)"
    by blast
  then have b: "decodeHash ''$argon2id$v=19$m=65536,t=2,p=004$82XldKYgqAqher7EuFzPNw$O1Epnr+m1JYkgtWcgVLID39ro6He105HTFnE+SinJyM''
     = Inr (\<lparr>Memory = 65536, Iterations = 2, Parallelism = 4, SaltLength = 16, KeyLength = 32\<rparr>,
            salt_ok, key_ok)"
    by (simp add: v l)
  from a b l show ?thesis by simp
qed

text \<open>
  Claim C10.  The decoder never looks at the segment before the first dollar sign:
  when a record that starts with the dollar sign decodes, the record with any text
  free of dollar signs put in front of it still has six segments and decodes to the
  same parameters, salt and key.
\<close>

theorem decodeHash_ignores_leading_segment:
  assumes "CHR ''$'' \<notin> set junk"
    and "decodeHash (CHR ''$'' # rest) = Inr r"
  shows "length (Split (junk @ CHR ''$'' # rest) (CHR ''$'')) = 6 \<and>
         decodeHash (junk @ CHR ''$'' # rest) = Inr r"
proof -
  let ?tail = "Split rest (CHR ''$'')"
  have s0: "Split (CHR ''$'' # rest) (CHR ''$'') = [] # ?tail"
    using Split_append_sep [of "CHR ''$''" "[]" rest] by simp
  have s1: "Split (junk @ CHR ''$'' # rest) (CHR ''$'') = junk # ?tail"
    using assms(1) by (rule Split_append_sep)
  have six: "length ([] # ?tail) = 6"
    using assms(2) by (auto simp: decodeHash_def s0 Let_def split: if_splits)
  have nth: "(junk # ?tail) ! 1 = ([] # ?tail) ! 1" "(junk # ?tail) ! 2 = ([] # ?tail) ! 2"
    "(junk # ?tail) ! 3 = ([] # ?tail) ! 3" "(junk # ?tail) ! 4 = ([] # ?tail) ! 4"
    "(junk # ?tail) ! 5 = ([] # ?tail) ! 5" "length (junk # ?tail) = length ([] # ?tail)"
    by simp_all
  have "decodeHash (junk @ CHR ''$'' # rest) = decodeHash (CHR ''$'' # rest)"
    unfolding decodeHash_def s0 s1 Let_def nth ..
  with six assms(2) show ?thesis by (simp add: s1)
qed

theorem decodeHash_ignores_leading_segment_witness:
  "length (Split (''junk'' @ record_ok) (CHR ''$'')) = 6 \<and>
   decodeHash (''junk'' @ record_ok) = decodeHash record_ok \<and>
   (\<exists>p. decodeHash (''junk'' @ record_ok) = Inr (p, salt_ok, key_ok))"
proof -
  have r: "record_ok = CHR ''$'' # tl record_ok" by (simp add: record_ok_def)
  have j: "CHR ''$'' \<notin> set ''junk''" by simp
  have d: "decodeHash (CHR ''$'' # tl record_ok) = decodeHash record_ok" using r by simp
  show ?thesis
    using decodeHash_ignores_leading_segment [OF j, of "tl record_ok", OF d [unfolded decodeHash_record_ok]]
    by (simp add: r [symmetric] decodeHash_record_ok salt_ok_def key_ok_def)
qed

section \<open>The verifier\<close>



section \<open>The encoder\<close>

lemma FormatInt_Version: "FormatInt argon2_Version = ''19''"
  by (simp add: FormatInt_def argon2_Version_def FormatUint.simps digitChar_def)

text \<open>
  Claim C8.  With nil parameters \<open>GenerateFromPassword\<close> reads a salt of 32 bytes,
  derives a key of length 64 with 10 iterations, 4096 KiB of memory and parallelism 2
  (the primitive returns at these values), and writes \<open>m=4096,t=10,p=2\<close> in the
  record: it behaves as with these parameters given explicitly.
\<close>

theorem GenerateFromPassword_defaults:
  "GenerateFromPassword kdf randReader pass None =
     Returns (case ReadFull randReader 32 of
        Inl err \<Rightarrow> Inl err
      | Inr salt \<Rightarrow>
          Inr (''$argon2id$v=19$m=4096,t=10,p=2$'' @ EncodeToString salt @ ''$'' @
               EncodeToString (map (kdf pass salt 10 4096 2 64) [0..<64]))) \<and>
   (\<forall>salt. IDKey kdf pass salt 10 4096 2 64 = Returns (map (kdf pass salt 10 4096 2 64) [0..<64])) \<and>
   GenerateFromPassword kdf randReader pass None =
     GenerateFromPassword kdf randReader pass
       (Some \<lparr>Memory = 4096, Iterations = 10, Parallelism = 2, SaltLength = 32, KeyLength = 64\<rparr>)"
  by (simp add: GenerateFromPassword_def defaultParams_def FormatInt_Version FormatUint.simps
      digitChar_def IDKey_def split: sum.splits)

theorem GenerateFromPassword_defaults_witness:
  "GenerateFromPassword kdf_zero ([], EOF) [102, 111, 111] None = Returns (Inl EOF) \<and>
   GenerateFromPassword kdf_zero (replicate 40 7, EOF) [102, 111, 111] None =
     Returns (Inr (''$argon2id$v=19$m=4096,t=10,p=2$'' @ EncodeToString (replicate 32 7) @ ''$'' @
                   EncodeToString (map (kdf_zero [102, 111, 111] (replicate 32 7) 10 4096 2 64) [0..<64])))"
  using GenerateFromPassword_defaults [of kdf_zero "([], EOF)" "[102, 111, 111]"]
    GenerateFromPassword_defaults [of kdf_zero "(replicate 40 7, EOF)" "[102, 111, 111]"]
  by (simp add: ReadFull_def)

end
